theory Spec2Isabelle
  imports Main "HOL-Library.Sublist" "HOL-Library.Monad_Syntax"
begin

section \<open>The generator of \<^verbatim>\<open>cli/generate_rest.py\<close>\<close>

text \<open>
  The script builds one text in the variable \<^verbatim>\<open>res\<close> by a sequence of
  \<^verbatim>\<open>res += ...\<close> statements and writes it to \<^verbatim>\<open>./rest_gen.go\<close>.
  Its two inputs, \<^verbatim>\<open>types\<close> and \<^verbatim>\<open>imports\<close>, come from the module
  \<^verbatim>\<open>gotypes\<close> and are parameters here. A text is a \<^typ>\<open>string\<close>; every operation
  of the script is a concatenation, so the model is the same for bytes and for code points.
  An expression \<^verbatim>\<open>"a%sb" % x\<close> on a string \<^verbatim>\<open>x\<close> is the concatenation of
  \<^verbatim>\<open>a\<close>, \<^verbatim>\<open>x\<close> and \<^verbatim>\<open>b\<close>.
\<close>

text \<open>The character written \<^verbatim>\<open>\t\<close> in the source.\<close>

definition TAB :: string where
  "TAB = [CHR 0x09]"

text \<open>An entry of \<^verbatim>\<open>types\<close> is a 4-tuple; the loop names its first two components
  \<^verbatim>\<open>typ\<close> and \<^verbatim>\<open>name\<close> and binds the other two to \<^verbatim>\<open>_\<close>.\<close>

type_synonym ('c, 'd) gotype = "string \<times> string \<times> 'c \<times> 'd"

text \<open>The body of \<^verbatim>\<open>for pkg in imports\<close> (line 11).\<close>

fun import_step :: "string \<Rightarrow> string \<Rightarrow> string" where
  \<open>import_step res pkg = res @ (TAB @ ''"'' @ pkg @ ''"\<newline>'')\<close>

text \<open>The body of \<^verbatim>\<open>for (typ, name, _, _) in types\<close> (lines 15 to 44), one
  binding for each \<^verbatim>\<open>res += ...\<close>.\<close>

fun types_step :: "string \<Rightarrow> ('c, 'd) gotype \<Rightarrow> string" where
  \<open>types_step res (typ, name, _, _) =
    (let res = res @ ''\<newline>'';
         res = res @ (''// []'' @ typ @ ''\<newline>'');
         res = res @ ''\<newline>'';
         res = res @ (''// Rest'' @ name @ ''sVar defines the []'' @ typ @ '' rest arguments with specified name.\<newline>'');
         res = res @ (''// The argument p points to a []'' @ typ @ '' variable in which to store values of arguments.\<newline>'');
         res = res @ ''// The return value will be an error from the register.RegisterRestArgs if it\<newline>'';
         res = res @ ''// failed to register the rest arguments.\<newline>'';
         res = res @ ''//\<newline>'';
         res = res @ ''// A usage may be set by passing a cli.Usage.\<newline>'';
         res = res @ ''//\<newline>'';
         res = res @ (''//   _ = cli.Rest'' @ name @ ''sVar(register, &p, "names", cli.Usage("Names of users"))\<newline>'');
         res = res @ (''func Rest'' @ name @ ''sVar(register Register, p *[]'' @ typ @ '', name string, options ...RestOptionApplyer) error {\<newline>'');
         res = res @ (TAB @ ''return RestVar(register, new'' @ name @ ''Values(p), name, options...)\<newline>'');
         res = res @ ''}\<newline>'';
         res = res @ ''\<newline>'';
         res = res @ (''// Rest'' @ name @ ''s defines the []'' @ typ @ '' rest arguments with specified name.\<newline>'');
         res = res @ (''// The return value is the address of a []'' @ typ @ '' variable that stores values of arguments.\<newline>'');
         res = res @ ''//\<newline>'';
         res = res @ ''// A usage may be set by passing a cli.Usage.\<newline>'';
         res = res @ ''//\<newline>'';
         res = res @ (''//   _ = cli.Rest'' @ name @ ''s(register, "names", cli.Usage("Names of users"))\<newline>'');
         res = res @ (''func Rest'' @ name @ ''s(register Register, name string, options ...RestOptionApplyer) *[]'' @ typ @ '' {\<newline>'');
         res = res @ (TAB @ ''p := new([]'' @ typ @ '')\<newline>'');
         res = res @ (TAB @ ''_ = Rest'' @ name @ ''sVar(register, p, name, options...)\<newline>'');
         res = res @ (TAB @ ''return p\<newline>'');
         res = res @ ''}\<newline>''
     in res)\<close>

text \<open>Lines 5 to 44: the text held by \<^verbatim>\<open>res\<close> when the second loop ends. This is
  the operation the specification calls \<^verbatim>\<open>generate(catalog, imports)\<close>.\<close>

definition generate :: "('c, 'd) gotype list \<Rightarrow> string list \<Rightarrow> string" where
  "generate types imports =
    (let res = ''// Code generated by generate_rest.py; DO NOT EDIT.\<newline>'';
         res = res @ ''\<newline>'';
         res = res @ ''package cli\<newline>'';
         res = res @ ''\<newline>'';
         res = res @ ''import (\<newline>'';
         res = foldl import_step res imports;
         res = res @ '')\<newline>'';
         res = foldl types_step res types
     in res)"

text \<open>
  The same lines statement by statement, over the module's namespace. The only name the
  statements read and write is \<^verbatim>\<open>res\<close>: it is \<open>Unbound\<close> in a fresh interpreter and
  \<open>Bound\<close> to some text when the module is executed again in a namespace that an earlier
  execution left behind. The assignment of line 5 binds it whatever it was; a statement
  \<^verbatim>\<open>res += e\<close> raises \<^verbatim>\<open>NameError\<close> (the result \<open>None\<close>) when it is unbound and
  rebinds it otherwise. The 26 statements of the second loop's body are one update by
  \<open>types_step\<close>. The last two lines of the script hand the text to the file
  \<^verbatim>\<open>./rest_gen.go\<close>; the file is not part of this model.
\<close>

datatype binding = Unbound | Bound string

definition assign_res :: "string \<Rightarrow> binding \<Rightarrow> binding option" where
  "assign_res v s = Some (Bound v)"

definition update_res :: "(string \<Rightarrow> string) \<Rightarrow> binding \<Rightarrow> binding option" where
  "update_res f s = (case s of Unbound \<Rightarrow> None | Bound res \<Rightarrow> Some (Bound (f res)))"

fun for_each :: "('a \<Rightarrow> binding \<Rightarrow> binding option) \<Rightarrow> 'a list \<Rightarrow> binding \<Rightarrow> binding option" where
  "for_each body [] s = Some s"
| "for_each body (x # xs) s = (case body x s of None \<Rightarrow> None | Some s' \<Rightarrow> for_each body xs s')"

definition run_script :: "('c, 'd) gotype list \<Rightarrow> string list \<Rightarrow> binding \<Rightarrow> binding option" where
  "run_script types imports s0 = do {
     s \<leftarrow> assign_res ''// Code generated by generate_rest.py; DO NOT EDIT.\<newline>'' s0;
     s \<leftarrow> update_res (\<lambda>res. res @ ''\<newline>'') s;
     s \<leftarrow> update_res (\<lambda>res. res @ ''package cli\<newline>'') s;
     s \<leftarrow> update_res (\<lambda>res. res @ ''\<newline>'') s;
     s \<leftarrow> update_res (\<lambda>res. res @ ''import (\<newline>'') s;
     s \<leftarrow> for_each (\<lambda>pkg. update_res (\<lambda>res. import_step res pkg)) imports s;
     s \<leftarrow> update_res (\<lambda>res. res @ '')\<newline>'') s;
     for_each (\<lambda>e. update_res (\<lambda>res. types_step res e)) types s
   }"

section \<open>Reading the generated text\<close>

text \<open>The lines of a text: it is cut after every newline character, and a last line
  without a newline counts when it is not empty.\<close>

fun lines_of :: "string \<Rightarrow> string list" where
  "lines_of [] = []"
| "lines_of (c # cs) =
    (if c = CHR ''\<newline>'' then [] # lines_of cs
     else (case lines_of cs of [] \<Rightarrow> [[c]] | l # ls \<Rightarrow> (c # l) # ls))"

text \<open>The inverse: every line followed by a newline character.\<close>

definition unlines :: "string list \<Rightarrow> string" where
  "unlines ls = concat (map (\<lambda>l. l @ ''\<newline>'') ls)"

definition newline_free :: "string \<Rightarrow> bool" where
  "newline_free s = (CHR ''\<newline>'' \<notin> set s)"

text \<open>The fragment that one entry of \<^verbatim>\<open>types\<close> adds to the text.\<close>

definition fragment :: "('c, 'd) gotype \<Rightarrow> string" where
  "fragment e = types_step [] e"

text \<open>The lines that one entry adds, written out: \<open>fragment\<close> is their \<open>unlines\<close>
  (lemma \<open>fragment_unlines\<close>).\<close>

definition fragment_lines :: "string \<Rightarrow> string \<Rightarrow> string list" where
  \<open>fragment_lines typ name =
    [ [],
      ''// []'' @ typ,
      [],
      ''// Rest'' @ name @ ''sVar defines the []'' @ typ @ '' rest arguments with specified name.'',
      ''// The argument p points to a []'' @ typ @ '' variable in which to store values of arguments.'',
      ''// The return value will be an error from the register.RegisterRestArgs if it'',
      ''// failed to register the rest arguments.'',
      ''//'',
      ''// A usage may be set by passing a cli.Usage.'',
      ''//'',
      ''//   _ = cli.Rest'' @ name @ ''sVar(register, &p, "names", cli.Usage("Names of users"))'',
      ''func Rest'' @ name @ ''sVar(register Register, p *[]'' @ typ @ '', name string, options ...RestOptionApplyer) error {'',
      TAB @ ''return RestVar(register, new'' @ name @ ''Values(p), name, options...)'',
      ''}'',
      [],
      ''// Rest'' @ name @ ''s defines the []'' @ typ @ '' rest arguments with specified name.'',
      ''// The return value is the address of a []'' @ typ @ '' variable that stores values of arguments.'',
      ''//'',
      ''// A usage may be set by passing a cli.Usage.'',
      ''//'',
      ''//   _ = cli.Rest'' @ name @ ''s(register, "names", cli.Usage("Names of users"))'',
      ''func Rest'' @ name @ ''s(register Register, name string, options ...RestOptionApplyer) *[]'' @ typ @ '' {'',
      TAB @ ''p := new([]'' @ typ @ '')'',
      TAB @ ''_ = Rest'' @ name @ ''sVar(register, p, name, options...)'',
      TAB @ ''return p'',
      ''}'' ]\<close>

text \<open>An entry whose two strings hold no line break, as an element type spelling and an
  identifier fragment do.\<close>

definition wf_entry :: "('c, 'd) gotype \<Rightarrow> bool" where
  "wf_entry e = (case e of (typ, name, _, _) \<Rightarrow> newline_free typ \<and> newline_free name)"

definition entry_lines :: "('c, 'd) gotype \<Rightarrow> string list" where
  "entry_lines e = (case e of (typ, name, _, _) \<Rightarrow> fragment_lines typ name)"

text \<open>The five lines before the import paths, and the line of one import path.\<close>

definition header_lines :: "string list" where
  "header_lines =
    [ ''// Code generated by generate_rest.py; DO NOT EDIT.'', [], ''package cli'', [], ''import ('' ]"

definition import_entry :: "string \<Rightarrow> string" where
  \<open>import_entry p = TAB @ ''"'' @ p @ ''"''\<close>

text \<open>A line that opens a function definition of the target language.\<close>

definition is_func_def :: "string \<Rightarrow> bool" where
  "is_func_def l = prefix ''func '' l"

text \<open>The import block of a text: the lines after the first line \<^verbatim>\<open>import (\<close>, up to
  the next line \<^verbatim>\<open>)\<close>.\<close>

definition import_block :: "string \<Rightarrow> string list" where
  "import_block out =
    takeWhile (\<lambda>l. l \<noteq> '')'') (tl (dropWhile (\<lambda>l. l \<noteq> ''import ('') (lines_of out)))"

text \<open>
  The two function definitions the specification describes for element type \<open>T\<close> and
  name suffix \<open>N\<close>, in the target language. \<open>RestVar_func\<close>: named \<^verbatim>\<open>Rest<N>sVar\<close>, it
  takes the registration target, a pointer \<^verbatim>\<open>p\<close> to a sequence of \<open>T\<close>, a name and
  variadic options, and its body returns the result of \<^verbatim>\<open>RestVar\<close> on the target, the
  adapter \<^verbatim>\<open>new<N>Values(p)\<close>, the name and the options. \<open>Rest_func\<close>: named
  \<^verbatim>\<open>Rest<N>s\<close>, its body allocates a sequence of \<open>T\<close>, calls \<^verbatim>\<open>Rest<N>sVar\<close> on it
  with the result assigned to \<^verbatim>\<open>_\<close>, and returns the address.
\<close>

definition RestVar_func :: "string \<Rightarrow> string \<Rightarrow> string" where
  "RestVar_func T N =
    ''func Rest'' @ N @ ''sVar(register Register, p *[]'' @ T @ '', name string, options ...RestOptionApplyer) error {\<newline>''
    @ TAB @ ''return RestVar(register, new'' @ N @ ''Values(p), name, options...)\<newline>''
    @ ''}\<newline>''"

definition Rest_func :: "string \<Rightarrow> string \<Rightarrow> string" where
  "Rest_func T N =
    ''func Rest'' @ N @ ''s(register Register, name string, options ...RestOptionApplyer) *[]'' @ T @ '' {\<newline>''
    @ TAB @ ''p := new([]'' @ T @ '')\<newline>''
    @ TAB @ ''_ = Rest'' @ N @ ''sVar(register, p, name, options...)\<newline>''
    @ TAB @ ''return p\<newline>''
    @ ''}\<newline>''"

text \<open>
  The two blocks of comment lines that precede them, and the text of one descriptor: the
  comments and the definition of the first function, then the comments and the definition
  of the second.
\<close>

definition RestVar_doc :: "string \<Rightarrow> string \<Rightarrow> string" where
  \<open>RestVar_doc T N =
    ''\<newline>''
    @ ''// []'' @ T @ ''\<newline>''
    @ ''\<newline>''
    @ ''// Rest'' @ N @ ''sVar defines the []'' @ T @ '' rest arguments with specified name.\<newline>''
    @ ''// The argument p points to a []'' @ T @ '' variable in which to store values of arguments.\<newline>''
    @ ''// The return value will be an error from the register.RegisterRestArgs if it\<newline>''
    @ ''// failed to register the rest arguments.\<newline>''
    @ ''//\<newline>''
    @ ''// A usage may be set by passing a cli.Usage.\<newline>''
    @ ''//\<newline>''
    @ ''//   _ = cli.Rest'' @ N @ ''sVar(register, &p, "names", cli.Usage("Names of users"))\<newline>''\<close>

definition Rest_doc :: "string \<Rightarrow> string \<Rightarrow> string" where
  \<open>Rest_doc T N =
    ''\<newline>''
    @ ''// Rest'' @ N @ ''s defines the []'' @ T @ '' rest arguments with specified name.\<newline>''
    @ ''// The return value is the address of a []'' @ T @ '' variable that stores values of arguments.\<newline>''
    @ ''//\<newline>''
    @ ''// A usage may be set by passing a cli.Usage.\<newline>''
    @ ''//\<newline>''
    @ ''//   _ = cli.Rest'' @ N @ ''s(register, "names", cli.Usage("Names of users"))\<newline>''\<close>

definition descriptor_pair :: "('c, 'd) gotype \<Rightarrow> string" where
  "descriptor_pair e =
    (case e of (T, N, _, _) \<Rightarrow> RestVar_doc T N @ RestVar_func T N @ Rest_doc T N @ Rest_func T N)"

text \<open>The number of positions of a text at which a given word starts. The two words
  counted below cannot overlap themselves, so this is also the number of their
  non-overlapping occurrences.\<close>

fun occurrences :: "string \<Rightarrow> string \<Rightarrow> nat" where
  "occurrences p [] = (if p = [] then 1 else 0)"
| "occurrences p (c # cs) = (if prefix p (c # cs) then 1 else 0) + occurrences p cs"

section \<open>The two loops as concatenations\<close>

lemma types_step_append: "types_step r e = r @ fragment e"
  by (cases e) (simp add: fragment_def Let_def)

lemma foldl_types_step: "foldl types_step r C = r @ concat (map fragment C)"
proof (induction C arbitrary: r)
  case Nil
  show ?case by simp
next
  case (Cons e C)
  have "foldl types_step r (e # C) = foldl types_step (types_step r e) C" by simp
  also have "\<dots> = types_step r e @ concat (map fragment C)" by (rule Cons.IH)
  also have "\<dots> = r @ concat (map fragment (e # C))" by (simp add: types_step_append)
  finally show ?case .
qed

lemma foldl_import_step:
  \<open>foldl import_step r I = r @ concat (map (\<lambda>p. TAB @ ''"'' @ p @ ''"\<newline>'') I)\<close>
  by (induction I arbitrary: r) simp_all

lemma generate_unfold:
  \<open>generate C I =
     ''// Code generated by generate_rest.py; DO NOT EDIT.\<newline>\<newline>package cli\<newline>\<newline>import (\<newline>''
     @ concat (map (\<lambda>p. TAB @ ''"'' @ p @ ''"\<newline>'') I)
     @ '')\<newline>''
     @ concat (map fragment C)\<close>
  by (simp add: generate_def Let_def foldl_types_step foldl_import_step)

lemma for_each_update:
  "for_each (\<lambda>x. update_res (\<lambda>res. f res x)) xs (Bound r) = Some (Bound (foldl f r xs))"
  by (induction xs arbitrary: r) (simp_all add: update_res_def)

lemma run_script_generate: "run_script C I s = Some (Bound (generate C I))"
  by (simp add: run_script_def generate_def Let_def assign_res_def update_res_def for_each_update
      del: import_step.simps types_step.simps)

lemma fragment_pair: "fragment e = descriptor_pair e"
  by (cases e)
    (simp add: fragment_def Let_def descriptor_pair_def RestVar_doc_def RestVar_func_def
      Rest_doc_def Rest_func_def)

lemma map_fragment_pair: "map fragment C = map descriptor_pair C"
  by (induction C) (simp_all add: fragment_pair)

section \<open>Lines of a text\<close>

lemma lines_of_line:
  "newline_free l \<Longrightarrow> lines_of (l @ CHR ''\<newline>'' # rest) = l # lines_of rest"
  by (induction l) (auto simp: newline_free_def)

lemma lines_of_unlines_append:
  "list_all newline_free ls \<Longrightarrow> lines_of (unlines ls @ rest) = ls @ lines_of rest"
proof (induction ls)
  case Nil
  show ?case by (simp add: unlines_def)
next
  case (Cons l ls)
  from Cons.prems have l: "newline_free l" and ls: "list_all newline_free ls" by simp_all
  have "unlines (l # ls) @ rest = l @ CHR ''\<newline>'' # (unlines ls @ rest)"
    by (simp add: unlines_def)
  then have "lines_of (unlines (l # ls) @ rest) = l # lines_of (unlines ls @ rest)"
    using lines_of_line [OF l] by simp
  with Cons.IH [OF ls] show ?case by simp
qed

lemma lines_of_terminated_nonempty: "lines_of (l @ ''\<newline>'') \<noteq> []"
  by (induction l) (auto split: list.splits)

lemma lines_of_terminated:
  "lines_of (l @ CHR ''\<newline>'' # rest) = lines_of (l @ ''\<newline>'') @ lines_of rest"
proof (induction l)
  case Nil
  show ?case by simp
next
  case (Cons c l)
  obtain k ks where k: "lines_of (l @ ''\<newline>'') = k # ks"
    using lines_of_terminated_nonempty [of l] by (cases "lines_of (l @ ''\<newline>'')") auto
  with Cons.IH show ?case by simp
qed

lemma lines_of_unlines_any:
  "lines_of (unlines ls @ rest) = concat (map (\<lambda>l. lines_of (l @ ''\<newline>'')) ls) @ lines_of rest"
proof (induction ls)
  case Nil
  show ?case by (simp add: unlines_def)
next
  case (Cons l ls)
  have "unlines (l # ls) @ rest = l @ CHR ''\<newline>'' # (unlines ls @ rest)"
    by (simp add: unlines_def)
  then have "lines_of (unlines (l # ls) @ rest) =
      lines_of (l @ ''\<newline>'') @ lines_of (unlines ls @ rest)"
    using lines_of_terminated [of l "unlines ls @ rest"] by simp
  with Cons.IH show ?case by simp
qed

lemma lines_of_unlines_lines:
  "lines_of (unlines ls) = concat (map (\<lambda>l. lines_of (l @ ''\<newline>'')) ls)"
  using lines_of_unlines_any [of ls "[]"] by simp

lemma lines_of_unlines: "list_all newline_free ls \<Longrightarrow> lines_of (unlines ls) = ls"
  using lines_of_unlines_append [of ls "[]"] by simp

lemma unlines_append: "unlines (xs @ ys) = unlines xs @ unlines ys"
  by (simp add: unlines_def)

lemma unlines_concat: "unlines (concat xss) = concat (map unlines xss)"
  by (induction xss) (simp_all add: unlines_def)

lemma fragment_unlines: "fragment (typ, name, x, y) = unlines (fragment_lines typ name)"
  by (simp add: fragment_def Let_def unlines_def fragment_lines_def)

lemma fragment_lines_newline_free:
  "newline_free typ \<Longrightarrow> newline_free name \<Longrightarrow> list_all newline_free (fragment_lines typ name)"
  by (simp add: fragment_lines_def newline_free_def TAB_def)

lemma filter_fragment_lines:
  "filter is_func_def (fragment_lines typ name) =
    [ ''func Rest'' @ name @ ''sVar(register Register, p *[]'' @ typ @ '', name string, options ...RestOptionApplyer) error {'',
      ''func Rest'' @ name @ ''s(register Register, name string, options ...RestOptionApplyer) *[]'' @ typ @ '' {'' ]"
  by (simp add: fragment_lines_def is_func_def_def TAB_def)

lemma generate_unlines:
  "generate C I = unlines (header_lines @ map import_entry I @ ['')'']) @ concat (map fragment C)"
  by (simp add: generate_unfold unlines_def header_lines_def import_entry_def o_def)

lemma preamble_newline_free:
  "list_all newline_free I \<Longrightarrow> list_all newline_free (header_lines @ map import_entry I @ ['')''])"
  by (induction I) (simp_all add: header_lines_def import_entry_def newline_free_def TAB_def)

lemma lines_of_generate:
  assumes "list_all newline_free I"
  shows "lines_of (generate C I) =
    header_lines @ map import_entry I @ ['')''] @ lines_of (concat (map fragment C))"
  using lines_of_unlines_append [OF preamble_newline_free [OF assms]]
  by (simp add: generate_unlines)

lemma fragment_entry_lines: "fragment e = unlines (entry_lines e)"
  by (cases e) (simp add: entry_lines_def fragment_unlines)

lemma entry_lines_newline_free: "wf_entry e \<Longrightarrow> list_all newline_free (entry_lines e)"
  by (cases e) (simp add: entry_lines_def wf_entry_def fragment_lines_newline_free)

lemma lines_of_catalog:
  assumes "list_all wf_entry C"
  shows "lines_of (concat (map fragment C)) = concat (map entry_lines C)"
proof -
  have "concat (map fragment C) = unlines (concat (map entry_lines C))"
    by (induction C) (simp_all add: fragment_entry_lines unlines_append unlines_def)
  moreover from assms have "list_all newline_free (concat (map entry_lines C))"
    by (induction C) (simp_all add: entry_lines_newline_free list_all_append)
  ultimately show ?thesis by (simp add: lines_of_unlines)
qed

lemma filter_header_lines: "filter is_func_def header_lines = []"
  by (simp add: header_lines_def is_func_def_def)

lemma filter_import_entries: "filter is_func_def (map import_entry I) = []"
  by (induction I) (simp_all add: import_entry_def is_func_def_def TAB_def)

lemma length_func_entry_lines: "length (filter is_func_def (entry_lines e)) = 2"
  by (cases e) (simp add: entry_lines_def filter_fragment_lines)

lemma length_func_catalog:
  "length (filter is_func_def (concat (map entry_lines C))) = 2 * length C"
  by (induction C) (simp_all add: length_func_entry_lines)

section \<open>Determinism\<close>

text \<open>
  Claim C1. Executing lines 5 to 44 never fails and leaves \<^verbatim>\<open>res\<close> bound to the text
  \<open>generate C I\<close>, whatever \<^verbatim>\<open>res\<close> was before: unbound, or bound to any text. So two
  executions on the same catalog and import list give the same text from any two starting
  states, and executing the lines again in the namespace that the first execution left
  gives the same text once more.
\<close>

theorem generate_deterministic:
  "run_script C I s = Some (Bound (generate C I))
   \<and> run_script C I s = run_script C I s'
   \<and> Option.bind (run_script C I s) (run_script C I) = run_script C I s"
  by (simp add: run_script_generate)

section \<open>The two functions of an entry\<close>




section \<open>Completeness\<close>

lemma lines_of_generate_single:
  "lines_of (generate [(T, N, x, y)] I) =
     concat (map (\<lambda>l. lines_of (l @ ''\<newline>''))
       (header_lines @ map import_entry I @ '')'' # fragment_lines T N))"
proof -
  have "generate [(T, N, x, y)] I =
      unlines (header_lines @ map import_entry I @ '')'' # fragment_lines T N) @ []"
    by (simp add: generate_unlines fragment_unlines unlines_append unlines_def)
  then show ?thesis by (simp only: lines_of_unlines_any) simp
qed

lemma lines_of_generate_empty:
  "lines_of (generate [] I) =
     concat (map (\<lambda>l. lines_of (l @ ''\<newline>'')) (header_lines @ map import_entry I @ ['')'']))"
  by (simp add: generate_unlines lines_of_unlines_lines)

text \<open>
  A string of the input may hold a line break, and the text that follows the break then
  starts a line of its own. With the element type \<^verbatim>\<open>int\<close>, line break, \<^verbatim>\<open>func x()\<close>
  the text for one entry has ten lines that start with \<^verbatim>\<open>func \<close>, not two; the same
  with this string as name suffix; and for the empty catalog with the import path
  \<^verbatim>\<open>x\<close>, line break, \<^verbatim>\<open>func evil() {\<close> it has one such line, not none.
\<close>

theorem function_count_counterexample:
  "length (filter is_func_def (lines_of
      (generate [(''int\<newline>func x()'', ''Int'', (), ())] []))) = 10
   \<and> length (filter is_func_def (lines_of
      (generate [(''int'', ''Int\<newline>func x()'', (), ())] []))) = 10
   \<and> length (filter is_func_def (lines_of
      (generate ([] :: (unit, unit) gotype list) [''x\<newline>func evil() {'']))) = 1"
  by (simp add: lines_of_generate_single lines_of_generate_empty header_lines_def
      fragment_lines_def import_entry_def is_func_def_def TAB_def)

text \<open>
  Claim C3, amended. When no element type, name suffix or import path holds a line break,
  the lines of the generated text that open a function definition are exactly twice as
  many as the catalog has entries, for a catalog of any length, zero included. For the
  empty catalog the text is the marker line, the package declaration and the import block,
  and nothing else.
\<close>

theorem function_count:
  assumes "list_all wf_entry C" and "list_all newline_free I"
  shows \<open>length (filter is_func_def (lines_of (generate C I))) = 2 * length C
    \<and> generate [] I =
        ''// Code generated by generate_rest.py; DO NOT EDIT.\<newline>\<newline>package cli\<newline>\<newline>import (\<newline>''
        @ concat (map (\<lambda>p. TAB @ ''"'' @ p @ ''"\<newline>'') I) @ '')\<newline>''\<close>
proof -
  from assms have "length (filter is_func_def (lines_of (generate C I))) = 2 * length C"
    by (simp add: lines_of_generate lines_of_catalog filter_header_lines filter_import_entries
        length_func_catalog is_func_def_def)
  then show ?thesis by (simp add: generate_unfold)
qed

theorem function_count_witness:
  "list_all wf_entry [(''int'', ''Int'', (), ()), (''string'', ''String'', (), ())]
   \<and> list_all newline_free [''fmt'']
   \<and> length (filter is_func_def (lines_of
        (generate [(''int'', ''Int'', (), ()), (''string'', ''String'', (), ())] [''fmt'']))) = 4"
proof -
  have C: "list_all wf_entry [(''int'', ''Int'', (), ()), (''string'', ''String'', (), ())]"
    by (simp add: wf_entry_def newline_free_def)
  have I: "list_all newline_free [''fmt'']"
    by (simp add: newline_free_def)
  from function_count [OF C I] have
    "length (filter is_func_def (lines_of
        (generate [(''int'', ''Int'', (), ()), (''string'', ''String'', (), ())] [''fmt'']))) =
      2 * length [(''int'', ''Int'', (), ()), (''string'', ''String'', (), ())]"
    by (rule conjunct1)
  then have
    "length (filter is_func_def (lines_of
        (generate [(''int'', ''Int'', (), ()), (''string'', ''String'', (), ())] [''fmt'']))) = 4"
    by simp
  with C I show ?thesis by blast
qed

section \<open>The import block\<close>

lemma import_entry_inj: "import_entry p = import_entry q \<longleftrightarrow> p = q"
  by (simp add: import_entry_def TAB_def)

lemma count_list_import_entries:
  "count_list (map import_entry I) (import_entry p) = count_list I p"
  by (induction I) (simp_all add: import_entry_inj)

lemma import_block_generate:
  assumes "list_all newline_free I"
  shows "import_block (generate C I) = map import_entry I"
proof -
  have ne: "\<forall>l \<in> set (map import_entry I). l \<noteq> '')''"
    by (auto simp: import_entry_def TAB_def)
  have "import_block (generate C I) =
      takeWhile (\<lambda>l. l \<noteq> '')'') (map import_entry I @ '')'' # lines_of (concat (map fragment C)))"
    by (simp add: import_block_def lines_of_generate [OF assms] header_lines_def)
  also have "\<dots> = map import_entry I"
    using ne by (simp add: takeWhile_append2 del: set_map)
  finally show ?thesis .
qed

text \<open>
  An import path with a line break takes more than one line of the block, and one with a
  line \<^verbatim>\<open>)\<close> in it ends the block early. The path \<^verbatim>\<open>a\<close>, line break, \<^verbatim>\<open>b\<close> gives two
  lines for one entry. The list of twice the path \<^verbatim>\<open>a\<close>, line break, \<^verbatim>\<open>)\<close>, line break,
  \<^verbatim>\<open>b\<close> gives a block of one line, in which the line of that path stands no time, while
  the path stands twice in the list.
\<close>

theorem import_pass_through_counterexample:
  \<open>import_block (generate ([] :: (unit, unit) gotype list) [''a\<newline>b'']) = [TAB @ ''"a'', ''b"'']
   \<and> import_block (generate ([] :: (unit, unit) gotype list) [''a\<newline>)\<newline>b'', ''a\<newline>)\<newline>b''])
       = [TAB @ ''"a'']
   \<and> count_list (import_block (generate ([] :: (unit, unit) gotype list) [''a\<newline>)\<newline>b'', ''a\<newline>)\<newline>b'']))
        (TAB @ ''"'' @ ''a\<newline>)\<newline>b'' @ ''"'') = 0
   \<and> count_list [''a\<newline>)\<newline>b'', ''a\<newline>)\<newline>b''] ''a\<newline>)\<newline>b'' = 2\<close>
  by (simp add: import_block_def lines_of_generate_empty header_lines_def import_entry_def TAB_def)


text \<open>
  Claim C4, amended. When no import path holds a line break, the lines of the import block
  are the lines of the import paths, one for each entry of the list and in the order of the
  list; so a path stands in the block as many times as in the list, duplicates included.
\<close>

theorem import_pass_through:
  assumes "list_all newline_free I"
  shows \<open>import_block (generate C I) = map (\<lambda>p. TAB @ ''"'' @ p @ ''"'') I
    \<and> count_list (import_block (generate C I)) (TAB @ ''"'' @ p @ ''"'') = count_list I p\<close>
  using count_list_import_entries [of I p]
  by (simp add: import_block_generate [OF assms] import_entry_def)

theorem import_pass_through_witness:
  \<open>list_all newline_free [''fmt'', ''os'', ''fmt'']
   \<and> import_block (generate ([] :: (unit, unit) gotype list) [''fmt'', ''os'', ''fmt'']) =
       [TAB @ ''"fmt"'', TAB @ ''"os"'', TAB @ ''"fmt"'']
   \<and> count_list (import_block (generate ([] :: (unit, unit) gotype list) [''fmt'', ''os'', ''fmt'']))
        (TAB @ ''"fmt"'') = 2\<close>
proof -
  have I: "list_all newline_free [''fmt'', ''os'', ''fmt'']"
    by (simp add: newline_free_def)
  from import_pass_through [OF I, of "[] :: (unit, unit) gotype list" "''fmt''"]
  show ?thesis using I by simp
qed

text \<open>
  Claim C9. With the empty import list the text still has the line \<^verbatim>\<open>import (\<close> and,
  right after it, the line \<^verbatim>\<open>)\<close>: the import block is there and it is empty.
\<close>

theorem empty_imports:
  "generate C [] =
     ''// Code generated by generate_rest.py; DO NOT EDIT.\<newline>\<newline>package cli\<newline>\<newline>import (\<newline>)\<newline>''
     @ concat (map fragment C)
   \<and> take 6 (lines_of (generate C [])) =
     [ ''// Code generated by generate_rest.py; DO NOT EDIT.'', [], ''package cli'', [], ''import ('', '')'' ]
   \<and> import_block (generate C []) = []"
proof -
  have "lines_of (generate C []) = header_lines @ '')'' # lines_of (concat (map fragment C))"
    using lines_of_generate [of "[]" C] by simp
  then show ?thesis
    by (simp add: generate_unfold import_block_def header_lines_def)
qed

text \<open>
  Claim C10. Every import path adds a tab, a double quote, the path as it is, a double
  quote and a newline, for any path whatever; between the line \<^verbatim>\<open>import (\<close> and the
  line \<^verbatim>\<open>)\<close> the text is the concatenation of these, and no character of a path is
  changed or escaped.
\<close>

theorem import_line_verbatim:
  "generate C I =
     ''// Code generated by generate_rest.py; DO NOT EDIT.\<newline>\<newline>package cli\<newline>\<newline>import (\<newline>''
     @ concat (map (\<lambda>p. [CHR 0x09, CHR 0x22] @ p @ [CHR 0x22, CHR 0x0A]) I)
     @ '')\<newline>''
     @ concat (map fragment C)
   \<and> import_step res p = res @ [CHR 0x09, CHR 0x22] @ p @ [CHR 0x22, CHR 0x0A]"
  by (simp add: generate_unfold TAB_def)

section \<open>The order of the fragments\<close>

text \<open>
  Claim C5. For every catalog and import list the text is the header, the lines of the
  import paths in the order of the import list, the closing line of the import block, and
  then, for each descriptor in the order of the catalog, its pair: the comments and the
  definition of \<^verbatim>\<open>Rest<N>sVar\<close>, then the comments and the definition of \<^verbatim>\<open>Rest<N>s\<close>.
  The pair of a descriptor comes right after the text generated for the descriptors before
  it, and is followed by the pairs of the descriptors after it. Nothing is sorted, dropped
  or merged.
\<close>

theorem catalog_order:
  \<open>generate C I =
     ''// Code generated by generate_rest.py; DO NOT EDIT.\<newline>\<newline>package cli\<newline>\<newline>import (\<newline>''
     @ concat (map (\<lambda>p. TAB @ ''"'' @ p @ ''"\<newline>'') I)
     @ '')\<newline>''
     @ concat (map descriptor_pair C)
   \<and> generate (C @ e # D) I = generate C I @ descriptor_pair e @ concat (map descriptor_pair D)\<close>
  by (simp add: generate_unfold map_fragment_pair fragment_pair)

section \<open>The header\<close>

text \<open>
  Claim C6. For every catalog and import list the first line is the marker comment
  \<^verbatim>\<open>// Code generated by generate_rest.py; DO NOT EDIT.\<close>; the package declaration
  \<^verbatim>\<open>package cli\<close> is the third line, and the import block opens on the fifth.
\<close>

theorem header_first:
  "take 5 (lines_of (generate C I)) =
     [ ''// Code generated by generate_rest.py; DO NOT EDIT.'', [], ''package cli'', [], ''import ('' ]
   \<and> prefix ''// Code generated by generate_rest.py; DO NOT EDIT.\<newline>\<newline>package cli\<newline>\<newline>import (\<newline>''
        (generate C I)"
proof -
  have "generate C I = unlines header_lines @ (unlines (map import_entry I @ ['')'']) @ concat (map fragment C))"
    by (simp add: generate_unlines unlines_append)
  moreover have "list_all newline_free header_lines"
    by (simp add: header_lines_def newline_free_def)
  ultimately have "lines_of (generate C I) =
      header_lines @ lines_of (unlines (map import_entry I @ ['')'']) @ concat (map fragment C))"
    by (simp add: lines_of_unlines_append)
  then have "take 5 (lines_of (generate C I)) = header_lines"
    by (simp add: header_lines_def)
  moreover have "prefix ''// Code generated by generate_rest.py; DO NOT EDIT.\<newline>\<newline>package cli\<newline>\<newline>import (\<newline>''
        (generate C I)"
    by (simp add: generate_unfold)
  ultimately show ?thesis by (simp add: header_lines_def)
qed

section \<open>The components the loop ignores\<close>

lemma fragment_fst: "fragment e = unlines (fragment_lines (fst e) (fst (snd e)))"
  by (cases e) (simp add: fragment_unlines)

lemma descriptor_proj: "(\<lambda>(typ, name, _, _). (typ, name)) = (\<lambda>e. (fst e, fst (snd e)))"
  by (auto simp: fun_eq_iff)

text \<open>
  Claim C8. Two catalogs whose entries agree, one by one, on the first two components give
  the same text with every import list: the third and fourth components have no effect.
\<close>

theorem extra_fields_ignored:
  assumes "map (\<lambda>(typ, name, _, _). (typ, name)) C = map (\<lambda>(typ, name, _, _). (typ, name)) C'"
  shows "generate C I = generate C' I"
proof -
  let ?text = "\<lambda>d. unlines (fragment_lines (fst d) (snd d))"
  have "map fragment C = map ?text (map (\<lambda>e. (fst e, fst (snd e))) C)"
    by (simp add: fragment_fst)
  also have "\<dots> = map ?text (map (\<lambda>e. (fst e, fst (snd e))) C')"
    using assms by (simp only: descriptor_proj)
  also have "\<dots> = map fragment C'"
    by (simp add: fragment_fst)
  finally show ?thesis by (simp add: generate_unfold)
qed


theorem extra_fields_ignored_witness:
  "map (\<lambda>(typ, name, _, _). (typ, name)) [(''int'', ''Int'', (0::nat), True)]
     = map (\<lambda>(typ, name, _, _). (typ, name)) [(''int'', ''Int'', ''zero'', [False])]
   \<and> generate [(''int'', ''Int'', (0::nat), True)] [''fmt'']
     = generate [(''int'', ''Int'', ''zero'', [False])] [''fmt'']"
proof -
  have h: "map (\<lambda>(typ, name, _, _). (typ, name)) [(''int'', ''Int'', (0::nat), True)]
     = map (\<lambda>(typ, name, _, _). (typ, name)) [(''int'', ''Int'', ''zero'', [False])]"
    by simp
  from extra_fields_ignored [OF h] show ?thesis using h by blast
qed

section \<open>The names of the generated functions\<close>

lemma prefix_before_newline:
  assumes "newline_free p"
  shows "prefix p (xs @ CHR ''\<newline>'' # rest) \<longleftrightarrow> prefix p xs"
proof
  assume "prefix p (xs @ CHR ''\<newline>'' # rest)"
  then consider "prefix p xs" | us where "p = xs @ us" "prefix us (CHR ''\<newline>'' # rest)"
    by (auto simp: prefix_append)
  then show "prefix p xs"
  proof cases
    case 1
    then show ?thesis .
  next
    case 2
    with assms show ?thesis by (cases us) (auto simp: newline_free_def)
  qed
next
  assume "prefix p xs"
  then show "prefix p (xs @ CHR ''\<newline>'' # rest)" by (rule prefix_prefix)
qed

lemma occurrences_line:
  assumes "p \<noteq> []" and "newline_free p"
  shows "occurrences p (l @ CHR ''\<newline>'' # rest) = occurrences p l + occurrences p rest"
proof (induction l)
  case Nil
  from assms have "\<not> prefix p (CHR ''\<newline>'' # rest)"
    by (cases p) (auto simp: newline_free_def)
  with assms(1) show ?case by simp
next
  case (Cons c l)
  have "prefix p (c # l @ CHR ''\<newline>'' # rest) \<longleftrightarrow> prefix p (c # l)"
    using prefix_before_newline [OF assms(2), of "c # l" rest] by simp
  with Cons.IH show ?case by simp
qed

lemma occurrences_unlines:
  assumes "p \<noteq> []" and "newline_free p"
  shows "occurrences p (unlines ls) = sum_list (map (occurrences p) ls)"
proof (induction ls)
  case Nil
  from assms(1) show ?case by (simp add: unlines_def)
next
  case (Cons l ls)
  have "unlines (l # ls) = l @ CHR ''\<newline>'' # unlines ls" by (simp add: unlines_def)
  with Cons.IH show ?case by (simp add: occurrences_line [OF assms])
qed

lemma generate_single_lines:
  "generate [(T, N, x, y)] [] = unlines (header_lines @ '')'' # fragment_lines T N)"
  by (simp add: generate_unlines fragment_unlines unlines_append unlines_def)

text \<open>
  For the catalog of the single entry \<^verbatim>\<open>("int", "Int", (), ())\<close> and no import, the word
  \<^verbatim>\<open>RestIntsVar\<close> stands four times in the text (the documentation comment, the usage
  example, the definition, and the call in the body of \<^verbatim>\<open>RestInts\<close>) and the word
  \<^verbatim>\<open>RestInts\<close> seven times (these four, and the comment, the usage example and the
  definition of \<^verbatim>\<open>RestInts\<close>): neither stands exactly once.
\<close>

theorem name_occurrences_counterexample:
  "occurrences ''RestIntsVar'' (generate [(''int'', ''Int'', (), ())] []) = 4
   \<and> occurrences ''RestInts'' (generate [(''int'', ''Int'', (), ())] []) = 7"
  by (simp add: generate_single_lines occurrences_unlines newline_free_def
      header_lines_def fragment_lines_def TAB_def)

lemma filter_func_import_entries:
  "filter (prefix (CHR ''f'' # p)) (map import_entry I) = []"
  by (induction I) (simp_all add: import_entry_def TAB_def)

text \<open>
  Claim C7, amended. For a catalog of a single entry with name suffix \<^verbatim>\<open>Int\<close>, when the
  element type and the import paths hold no line break, each of the two names is defined
  exactly once: one line of the text starts with \<^verbatim>\<open>func RestIntsVar(\<close> and one line
  starts with \<^verbatim>\<open>func RestInts(\<close>.
\<close>

theorem function_names_defined_once:
  assumes "newline_free T" and "list_all newline_free I"
  shows "length (filter (prefix ''func RestIntsVar('') (lines_of (generate [(T, ''Int'', x, y)] I))) = 1
       \<and> length (filter (prefix ''func RestInts('') (lines_of (generate [(T, ''Int'', x, y)] I))) = 1"
proof -
  have wf: "list_all wf_entry [(T, ''Int'', x, y)]"
    using assms(1) by (simp add: wf_entry_def newline_free_def)
  have "lines_of (generate [(T, ''Int'', x, y)] I) =
      header_lines @ map import_entry I @ '')'' # fragment_lines T ''Int''"
    using lines_of_catalog [OF wf]
    by (simp add: lines_of_generate [OF assms(2)] entry_lines_def)
  then show ?thesis
    by (simp add: filter_func_import_entries header_lines_def fragment_lines_def TAB_def)
qed

theorem function_names_defined_once_witness:
  "newline_free ''int'' \<and> list_all newline_free [''fmt'']
   \<and> length (filter (prefix ''func RestIntsVar('')
        (lines_of (generate [(''int'', ''Int'', (), ())] [''fmt'']))) = 1
   \<and> length (filter (prefix ''func RestInts('')
        (lines_of (generate [(''int'', ''Int'', (), ())] [''fmt'']))) = 1"
proof -
  have T: "newline_free ''int''" and I: "list_all newline_free [''fmt'']"
    by (simp_all add: newline_free_def)
  from function_names_defined_once [OF T I, of "()" "()"] show ?thesis using T I by blast
qed


end
